theory Spec2Isabelle
  imports Complex_Main
begin

section \<open>The prompt bridge of \<^verbatim>\<open>src/shell/scripts/omp.py\<close>\<close>

text \<open>
  The script is sourced once by the xonsh shell. Its top level sets five environment
  variables; the two functions it installs as \<^verbatim>\<open>$PROMPT\<close> and
  \<^verbatim>\<open>$RIGHT_PROMPT\<close> read the last history entry, build the command line of the
  external renderer and return what the shell's capture operator gives back.
\<close>

subsection \<open>Python values the script computes with\<close>

text \<open>
  A finite Python float is the real number it denotes. The result of an arithmetic
  operation is the exact result rounded to the nearest binary64 value, ties to the even
  significand; a result beyond the binary64 range is an infinity. The sign of an
  infinity is not kept: the only consumer, \<^verbatim>\<open>round\<close>, raises on both.
\<close>

datatype pyfloat = Finite real | Infinity

datatype error = IndexError | KeyError | OverflowError

text \<open>\<^verbatim>\<open>int.bit_length\<close>: the number of binary digits of a natural number.\<close>

fun bit_length :: "nat \<Rightarrow> nat" where
  "bit_length n = (if n = 0 then 0 else Suc (bit_length (n div 2)))"

declare bit_length.simps [simp del]

definition pow2 :: "int \<Rightarrow> real" where
  "pow2 k = (if 0 \<le> k then 2 ^ nat k else 1 / 2 ^ nat (- k))"

text \<open>The binary exponent of a positive real \<open>x\<close>: the \<open>e\<close> with \<open>2^e \<le> x < 2^(e+1)\<close>.\<close>

definition ilog2 :: "real \<Rightarrow> int" where
  "ilog2 x =
     (if 1 \<le> x then int (bit_length (nat \<lfloor>x\<rfloor>)) - 1
      else - int (bit_length (nat (\<lceil>1 / x\<rceil> - 1))))"

text \<open>Rounding to the nearest integer, a tie going to the even neighbour.\<close>

definition round_half_even :: "real \<Rightarrow> int" where
  "round_half_even x =
     (let f = \<lfloor>x\<rfloor>; d = x - of_int f
      in if d < 1 / 2 then f
         else if 1 / 2 < d then f + 1
         else if even f then f else f + 1)"

text \<open>
  Rounding an exact result to binary64: 53 significant bits for a normal value, a
  multiple of \<open>2^-1074\<close> for a subnormal one, an infinity from \<open>2^1024\<close> on.
\<close>

definition binary64 :: "real \<Rightarrow> pyfloat" where
  "binary64 x =
     (if x = 0 then Finite 0
      else let u = pow2 (max (ilog2 \<bar>x\<bar>) (- 1022) - 52);
               y = of_int (round_half_even (x / u)) * u
           in if pow2 1024 \<le> \<bar>y\<bar> then Infinity else Finite y)"

text \<open>\<^verbatim>\<open>a - b\<close> and \<^verbatim>\<open>a * b\<close> on floats; an infinity times a positive number stays one.\<close>

fun float_sub :: "pyfloat \<Rightarrow> pyfloat \<Rightarrow> pyfloat" where
  "float_sub (Finite a) (Finite b) = binary64 (a - b)"
| "float_sub _ _ = Infinity"

fun float_mul_int :: "pyfloat \<Rightarrow> int \<Rightarrow> pyfloat" where
  "float_mul_int (Finite a) k = binary64 (a * of_int k)"
| "float_mul_int Infinity k = Infinity"

text \<open>
  \<^verbatim>\<open>round(x)\<close> with one argument: the nearest integer, ties to even, as a Python
  \<^verbatim>\<open>int\<close>; \<^verbatim>\<open>OverflowError\<close> on an infinity.
\<close>

fun py_round :: "pyfloat \<Rightarrow> error + int" where
  "py_round (Finite x) = Inr (round_half_even x)"
| "py_round Infinity = Inl OverflowError"

text \<open>\<^verbatim>\<open>xs[i]\<close> for a non-negative constant index.\<close>

definition getitem :: "'a list \<Rightarrow> nat \<Rightarrow> error + 'a" where
  "getitem xs i = (if i < length xs then Inr (xs ! i) else Inl IndexError)"

subsection \<open>The shell's history\<close>

text \<open>
  An entry of \<^verbatim>\<open>__xonsh__.history\<close>: the command line, its return code and the pair
  of wall-clock timestamps \<^verbatim>\<open>[start, end]\<close>. The timestamps are kept as the list
  the shell stores, so that indexing it can fail as it does in Python; each is a finite
  float, given by the real number it denotes.
\<close>

record HistoryEntry =
  cmd :: string
  rtn :: int
  ts :: "real list"

subsection \<open>\<^verbatim>\<open>get_command_context\<close>\<close>

text \<open>
  \<^verbatim>\<open>
  def get_command_context():
      last_cmd = __xonsh__.history[-1] if __xonsh__.history else None
      status = last_cmd.rtn if last_cmd else 0
      duration = round((last_cmd.ts[1] - last_cmd.ts[0]) * 1000) if last_cmd else 0
      return status, duration
  \<close>
  A history entry is a non-empty named tuple, so \<^verbatim>\<open>if last_cmd\<close> tests for
  \<^verbatim>\<open>None\<close> only.
\<close>

definition get_command_context :: "HistoryEntry list \<Rightarrow> error + (int \<times> int)" where
  "get_command_context history =
     (let last_cmd = (if history \<noteq> [] then Some (last history) else None);
          status = (case last_cmd of Some c \<Rightarrow> rtn c | None \<Rightarrow> 0)
      in case last_cmd of
           None \<Rightarrow> Inr (status, 0)
         | Some c \<Rightarrow>
             (case getitem (ts c) 1 of
                Inl e \<Rightarrow> Inl e
              | Inr t1 \<Rightarrow>
                  (case getitem (ts c) 0 of
                     Inl e \<Rightarrow> Inl e
                   | Inr t0 \<Rightarrow>
                       (case py_round (float_mul_int (float_sub (Finite t1) (Finite t0)) 1000) of
                          Inl e \<Rightarrow> Inl e
                        | Inr duration \<Rightarrow> Inr (status, duration)))))"

subsection \<open>Formatting an argument\<close>

text \<open>
  An \<^verbatim>\<open>@(expr)\<close> whose value is not a string is spliced into the command line
  through \<^verbatim>\<open>str\<close>; for a Python \<^verbatim>\<open>int\<close> that is its decimal numeral, with a
  minus sign when negative.
\<close>

definition digit_char :: "nat \<Rightarrow> char" where
  "digit_char d = ''0123456789'' ! d"

fun str_nat :: "nat \<Rightarrow> string" where
  "str_nat n = (if n < 10 then [digit_char n] else str_nat (n div 10) @ [digit_char (n mod 10)])"

declare str_nat.simps [simp del]

definition str_int :: "int \<Rightarrow> string" where
  "str_int i = (if i < 0 then CHR ''-'' # str_nat (nat (- i)) else str_nat (nat i))"

subsection \<open>The shell session and the script's top level\<close>

text \<open>
  The part of the xonsh session the script touches: the environment (\<^verbatim>\<open>$NAME\<close>),
  the two prompt hooks, the history, and the number of calls made to
  \<^verbatim>\<open>uuid.uuid4\<close> so far. The random source is a parameter: its \<open>n\<close>-th call
  returns \<open>rnd n\<close>.
\<close>

datatype hook = Hook_posh_primary | Hook_posh_right

record shell =
  env :: "string \<rightharpoonup> string"
  PROMPT :: "hook option"
  RIGHT_PROMPT :: "hook option"
  history :: "HistoryEntry list"
  uuid4_calls :: nat

definition uuid4_hex :: "(nat \<Rightarrow> string) \<Rightarrow> shell \<Rightarrow> string \<times> shell" where
  "uuid4_hex rnd s = (rnd (uuid4_calls s), s\<lparr>uuid4_calls := Suc (uuid4_calls s)\<rparr>)"

definition setenv :: "string \<Rightarrow> string \<Rightarrow> shell \<Rightarrow> shell" where
  "setenv name v s = s\<lparr>env := (env s)(name \<mapsto> v)\<rparr>"

text \<open>Reading \<^verbatim>\<open>$NAME\<close> raises \<^verbatim>\<open>KeyError\<close> when the variable is not set.\<close>

definition getenv :: "shell \<Rightarrow> string \<Rightarrow> error + string" where
  "getenv s name = (case env s name of None \<Rightarrow> Inl KeyError | Some v \<Rightarrow> Inr v)"

text \<open>
  \<^verbatim>\<open>
  $POWERLINE_COMMAND = "OMP"
  $POSH_THEME = r"::CONFIG::"
  $POSH_PID = uuid.uuid4().hex
  $POSH_SHELL_VERSION = $XONSH_VERSION
  $POSH_EXECUTABLE = r"::OMP::"
  ...
  $PROMPT = posh_primary
  $RIGHT_PROMPT = posh_right
  \<close>
\<close>

definition load_script :: "(nat \<Rightarrow> string) \<Rightarrow> shell \<Rightarrow> error + shell" where
  "load_script rnd s0 =
     (let s1 = setenv ''POWERLINE_COMMAND'' ''OMP'' s0;
          s2 = setenv ''POSH_THEME'' ''::CONFIG::'' s1;
          (token, s3) = uuid4_hex rnd s2;
          s4 = setenv ''POSH_PID'' token s3
      in case getenv s4 ''XONSH_VERSION'' of
           Inl e \<Rightarrow> Inl e
         | Inr version \<Rightarrow>
             (let s5 = setenv ''POSH_SHELL_VERSION'' version s4;
                  s6 = setenv ''POSH_EXECUTABLE'' ''::OMP::'' s5
              in Inr (s6\<lparr>PROMPT := Some Hook_posh_primary,
                         RIGHT_PROMPT := Some Hook_posh_right\<rparr>)))"

subsection \<open>The two prompt functions\<close>

text \<open>
  A subprocess is started with a command line and the shell's environment. The renderer
  is outside the repository: it is a parameter, the function from the invocation to
  the bytes it writes on its standard output.
\<close>

record invocation =
  argv :: "string list"
  environ :: "string \<rightharpoonup> string"

type_synonym renderer = "invocation \<Rightarrow> string"

text \<open>
  Modelled from the spec: the capture operator \<^verbatim>\<open>$(...)\<close> belongs to the host shell
  and is missing from the sources. The spec has it return the subprocess's standard
  output with exactly one trailing newline removed if present, and nothing else changed.
\<close>

definition capture :: "string \<Rightarrow> string" where
  "capture out = (if out \<noteq> [] \<and> last out = CHR 0x0A then butlast out else out)"

text \<open>
  \<^verbatim>\<open>
  def posh_primary():
      status, duration = get_command_context()
      return $(@($POSH_EXECUTABLE) print primary --shell=xonsh --status=@(status)
               --execution-time=@(duration) --shell-version=@($POSH_SHELL_VERSION))
  \<close>
  The result is the subprocess started together with the string returned.
\<close>

definition posh_primary :: "renderer \<Rightarrow> shell \<Rightarrow> error + (invocation \<times> string)" where
  "posh_primary run s =
     (case get_command_context (history s) of
        Inl e \<Rightarrow> Inl e
      | Inr (status, duration) \<Rightarrow>
          (case getenv s ''POSH_EXECUTABLE'' of
             Inl e \<Rightarrow> Inl e
           | Inr exe \<Rightarrow>
               (case getenv s ''POSH_SHELL_VERSION'' of
                  Inl e \<Rightarrow> Inl e
                | Inr version \<Rightarrow>
                    (let call = \<lparr>argv = [exe, ''print'', ''primary'', ''--shell=xonsh'',
                                           ''--status='' @ str_int status,
                                           ''--execution-time='' @ str_int duration,
                                           ''--shell-version='' @ version],
                                   environ = env s\<rparr>
                     in Inr (call, capture (run call))))))"

definition posh_right :: "renderer \<Rightarrow> shell \<Rightarrow> error + (invocation \<times> string)" where
  "posh_right run s =
     (case get_command_context (history s) of
        Inl e \<Rightarrow> Inl e
      | Inr (status, duration) \<Rightarrow>
          (case getenv s ''POSH_EXECUTABLE'' of
             Inl e \<Rightarrow> Inl e
           | Inr exe \<Rightarrow>
               (case getenv s ''POSH_SHELL_VERSION'' of
                  Inl e \<Rightarrow> Inl e
                | Inr version \<Rightarrow>
                    (let call = \<lparr>argv = [exe, ''print'', ''right'', ''--shell=xonsh'',
                                           ''--status='' @ str_int status,
                                           ''--execution-time='' @ str_int duration,
                                           ''--shell-version='' @ version],
                                   environ = env s\<rparr>
                     in Inr (call, capture (run call))))))"

subsection \<open>A session of the host shell\<close>

text \<open>
  The host shell alternates between running a command, which appends its entry to the
  history, and drawing the prompt, which calls the hook in \<^verbatim>\<open>$PROMPT\<close> and then
  the hook in \<^verbatim>\<open>$RIGHT_PROMPT\<close>. The commands considered do not reassign the
  script's variables. A session yields the outcomes of the hook calls, in order.
\<close>

datatype event = Run_Command HistoryEntry | Draw_Prompt

fun call_hook :: "renderer \<Rightarrow> shell \<Rightarrow> hook option \<Rightarrow> (error + (invocation \<times> string)) list" where
  "call_hook run s None = []"
| "call_hook run s (Some Hook_posh_primary) = [posh_primary run s]"
| "call_hook run s (Some Hook_posh_right) = [posh_right run s]"

fun session :: "renderer \<Rightarrow> shell \<Rightarrow> event list \<Rightarrow> (error + (invocation \<times> string)) list \<times> shell" where
  "session run s [] = ([], s)"
| "session run s (Run_Command e # evs) = session run (s\<lparr>history := history s @ [e]\<rparr>) evs"
| "session run s (Draw_Prompt # evs) =
     (let (outs, s') = session run s evs
      in (call_hook run s (PROMPT s) @ call_hook run s (RIGHT_PROMPT s) @ outs, s'))"

subsection \<open>A shell for examples\<close>

text \<open>A shell that has the two variables the prompt functions read, with a given history.\<close>

definition example_shell :: "HistoryEntry list \<Rightarrow> shell" where
  "example_shell h =
     \<lparr>env = [''POSH_EXECUTABLE'' \<mapsto> ''::OMP::'', ''POSH_SHELL_VERSION'' \<mapsto> ''0.14.0''],
      PROMPT = Some Hook_posh_primary, RIGHT_PROMPT = Some Hook_posh_right,
      history = h, uuid4_calls = 1\<rparr>"

subsection \<open>The rounding rule named by the specification\<close>

text \<open>
  The specification asks for rounding to the nearest integer with a tie going up
  (half-up). This is the specification's rule, written down to compare the code with it.
\<close>

definition round_half_up :: "real \<Rightarrow> int" where
  "round_half_up x = \<lfloor>x + 1 / 2\<rfloor>"

subsection \<open>A session for examples\<close>

text \<open>
  A shell of version 0.14.0 before the script is sourced, a random source, the state
  the script leaves behind, and the renderer call made from that state.
\<close>

definition fresh_shell :: shell where
  "fresh_shell = \<lparr>env = [''XONSH_VERSION'' \<mapsto> ''0.14.0''], PROMPT = None, RIGHT_PROMPT = None,
                   history = [], uuid4_calls = 0\<rparr>"

definition example_uuid :: "nat \<Rightarrow> string" where
  "example_uuid n = (if n = 0 then ''9f86d081884c7d659a2feaa0c55ad015''
                     else ''2c26b46b68ffc68ff99b453c1d304134'')"

definition loaded_shell :: "HistoryEntry list \<Rightarrow> shell" where
  "loaded_shell h =
     \<lparr>env = [''XONSH_VERSION'' \<mapsto> ''0.14.0'', ''POWERLINE_COMMAND'' \<mapsto> ''OMP'',
             ''POSH_THEME'' \<mapsto> ''::CONFIG::'', ''POSH_PID'' \<mapsto> ''9f86d081884c7d659a2feaa0c55ad015'',
             ''POSH_SHELL_VERSION'' \<mapsto> ''0.14.0'', ''POSH_EXECUTABLE'' \<mapsto> ''::OMP::''],
      PROMPT = Some Hook_posh_primary, RIGHT_PROMPT = Some Hook_posh_right,
      history = h, uuid4_calls = 1\<rparr>"

definition example_call :: "string \<Rightarrow> string \<Rightarrow> string \<Rightarrow> invocation" where
  "example_call mode status duration =
     \<lparr>argv = [''::OMP::'', ''print'', mode, ''--shell=xonsh'', ''--status='' @ status,
              ''--execution-time='' @ duration, ''--shell-version=0.14.0''],
      environ = env (loaded_shell [])\<rparr>"

section \<open>Evaluation on literals\<close>

lemma bit_length_0: "bit_length 0 = 0"
  by (simp add: bit_length.simps)

lemma bit_length_1: "bit_length 1 = 1"
  by (simp add: bit_length.simps)

lemma bit_length_Suc_0: "bit_length (Suc 0) = 1"
  by (simp add: bit_length.simps)

lemma bit_length_Bit0: "bit_length (numeral (Num.Bit0 k)) = Suc (bit_length (numeral k))"
  by (subst bit_length.simps) simp

lemma bit_length_Bit1: "bit_length (numeral (Num.Bit1 k)) = Suc (bit_length (numeral k))"
  by (subst bit_length.simps) simp

lemmas bit_length_numeral =
  bit_length_0 bit_length_1 bit_length_Suc_0 bit_length_Bit0 bit_length_Bit1

lemmas float_eval =
  binary64_def ilog2_def pow2_def round_half_even_def Let_def bit_length_numeral

lemmas context_eval = get_command_context_def getitem_def float_eval

lemmas str_eval = str_int_def str_nat.simps digit_char_def

lemmas prompt_eval = posh_primary_def posh_right_def getenv_def context_eval str_eval

section \<open>An empty history\<close>

lemma get_command_context_Nil: "get_command_context [] = Inr (0, 0)"
  by (simp add: get_command_context_def)

lemma str_int_0: "str_int 0 = ''0''"
  by (simp add: str_eval)

text \<open>
  C1. In a session where no command has been executed yet (the history is empty), both
  \<open>posh_primary\<close> and \<open>posh_right\<close> start the renderer with \<^verbatim>\<open>--status=0\<close> and
  \<^verbatim>\<open>--execution-time=0\<close>.
\<close>

theorem C1_empty_history_zero_arguments:
  assumes "history s = []"
    and "env s ''POSH_EXECUTABLE'' = Some exe"
    and "env s ''POSH_SHELL_VERSION'' = Some version"
  shows "map_sum id (argv \<circ> fst) (posh_primary run s) =
           Inr [exe, ''print'', ''primary'', ''--shell=xonsh'', ''--status=0'',
                ''--execution-time=0'', ''--shell-version='' @ version]
       \<and> map_sum id (argv \<circ> fst) (posh_right run s) =
           Inr [exe, ''print'', ''right'', ''--shell=xonsh'', ''--status=0'',
                ''--execution-time=0'', ''--shell-version='' @ version]"
  using assms
  by (simp add: posh_primary_def posh_right_def getenv_def get_command_context_Nil str_int_0
      Let_def)

theorem C1_empty_history_zero_arguments_witness:
  "(let s = \<lparr>env = [''POSH_EXECUTABLE'' \<mapsto> ''::OMP::'', ''POSH_SHELL_VERSION'' \<mapsto> ''0.14.0''],
              PROMPT = Some Hook_posh_primary, RIGHT_PROMPT = Some Hook_posh_right,
              history = [], uuid4_calls = 1\<rparr>
    in history s = []
     \<and> env s ''POSH_EXECUTABLE'' = Some ''::OMP::''
     \<and> env s ''POSH_SHELL_VERSION'' = Some ''0.14.0''
     \<and> map_sum id (argv \<circ> fst) (posh_primary (\<lambda>_. ''> '') s) =
          Inr [''::OMP::'', ''print'', ''primary'', ''--shell=xonsh'', ''--status=0'',
               ''--execution-time=0'', ''--shell-version=0.14.0'']
     \<and> map_sum id (argv \<circ> fst) (posh_right (\<lambda>_. ''> '') s) =
          Inr [''::OMP::'', ''print'', ''right'', ''--shell=xonsh'', ''--status=0'',
               ''--execution-time=0'', ''--shell-version=0.14.0''])"
  using C1_empty_history_zero_arguments
    [of "\<lparr>env = [''POSH_EXECUTABLE'' \<mapsto> ''::OMP::'', ''POSH_SHELL_VERSION'' \<mapsto> ''0.14.0''],
          PROMPT = Some Hook_posh_primary, RIGHT_PROMPT = Some Hook_posh_right,
          history = [], uuid4_calls = 1\<rparr>" "''::OMP::''" "''0.14.0''" "\<lambda>_. ''> ''"]
  by simp

section \<open>Only the last entry is read\<close>

lemma get_command_context_last:
  "h \<noteq> [] \<Longrightarrow> get_command_context h = get_command_context [last h]"
  by (simp add: get_command_context_def)

lemma getitem_take2: "i < 2 \<Longrightarrow> getitem (take 2 xs) i = getitem xs i"
  by (simp add: getitem_def)

lemma get_command_context_single:
  assumes "rtn a = rtn b" and "take 2 (ts a) = take 2 (ts b)"
  shows "get_command_context [a] = get_command_context [b]"
proof -
  have "getitem (ts a) i = getitem (ts b) i" if "i < 2" for i
    using that assms(2) getitem_take2 [of i "ts a"] getitem_take2 [of i "ts b"] by simp
  from this [of 0] this [of 1] have "getitem (ts a) 0 = getitem (ts b) 0"
    and "getitem (ts a) 1 = getitem (ts b) 1" by simp_all
  then show ?thesis
    using assms(1) by (simp add: get_command_context_def cong: sum.case_cong)
qed

text \<open>
  C9. Two histories whose last entries agree on the return status and on the two
  timestamps \<^verbatim>\<open>ts[0]\<close> and \<^verbatim>\<open>ts[1]\<close> give the same
  \<open>(status, duration)\<close>, or fail alike: no earlier entry, no other field of the last
  entry and no further element of \<^verbatim>\<open>ts\<close> has any influence.
\<close>

theorem C9_only_last_entry_matters:
  assumes "h1 \<noteq> []" and "h2 \<noteq> []"
    and "rtn (last h1) = rtn (last h2)"
    and "take 2 (ts (last h1)) = take 2 (ts (last h2))"
  shows "get_command_context h1 = get_command_context h2"
proof -
  have "get_command_context h1 = get_command_context [last h1]"
    using assms(1) by (rule get_command_context_last)
  also have "\<dots> = get_command_context [last h2]"
    using assms(3,4) by (rule get_command_context_single)
  also have "\<dots> = get_command_context h2"
    using assms(2) by (rule get_command_context_last [symmetric])
  finally show ?thesis .
qed

theorem C9_only_last_entry_matters_witness:
  "[\<lparr>cmd = ''make'', rtn = 2, ts = [3, 4]\<rparr>, \<lparr>cmd = ''ls'', rtn = 1, ts = [10, 21 / 2]\<rparr>] \<noteq> []
   \<and> [\<lparr>cmd = ''cat'', rtn = 1, ts = [10, 21 / 2, 11]\<rparr>] \<noteq> []
   \<and> get_command_context
        [\<lparr>cmd = ''make'', rtn = 2, ts = [3, 4]\<rparr>, \<lparr>cmd = ''ls'', rtn = 1, ts = [10, 21 / 2]\<rparr>]
     = get_command_context [\<lparr>cmd = ''cat'', rtn = 1, ts = [10, 21 / 2, 11]\<rparr>]
   \<and> get_command_context [\<lparr>cmd = ''cat'', rtn = 1, ts = [10, 21 / 2, 11]\<rparr>] = Inr (1, 500)"
  using C9_only_last_entry_matters
    [of "[\<lparr>cmd = ''make'', rtn = 2, ts = [3, 4]\<rparr>, \<lparr>cmd = ''ls'', rtn = 1, ts = [10, 21 / 2]\<rparr>]"
        "[\<lparr>cmd = ''cat'', rtn = 1, ts = [10, 21 / 2, 11]\<rparr>]"]
  by (simp add: context_eval)

section \<open>The scenario of a failed half-second command\<close>

lemma get_command_context_10_105:
  assumes "rtn e = 1" and "ts e = [10, 21 / 2]"
  shows "get_command_context (h @ [e]) = Inr (1, 500)"
  using assms by (simp add: context_eval)

lemma str_int_1: "str_int 1 = ''1''"
  by (simp add: str_eval)

lemma str_int_500: "str_int 500 = ''500''"
  by (simp add: str_eval)

text \<open>
  C3. For a history whose last entry has return status 1 and timestamps
  \<^verbatim>\<open>[10.0, 10.5]\<close>, \<open>get_command_context\<close> yields status 1 and duration 500, and
  both prompt functions pass \<^verbatim>\<open>--status=1\<close> and \<^verbatim>\<open>--execution-time=500\<close>.
\<close>

theorem C3_status_1_duration_500:
  assumes "history s = h @ [e]" and "rtn e = 1" and "ts e = [10, 21 / 2]"
    and "env s ''POSH_EXECUTABLE'' = Some exe"
    and "env s ''POSH_SHELL_VERSION'' = Some version"
  shows "get_command_context (history s) = Inr (1, 500)
       \<and> map_sum id (argv \<circ> fst) (posh_primary run s) =
           Inr [exe, ''print'', ''primary'', ''--shell=xonsh'', ''--status=1'',
                ''--execution-time=500'', ''--shell-version='' @ version]
       \<and> map_sum id (argv \<circ> fst) (posh_right run s) =
           Inr [exe, ''print'', ''right'', ''--shell=xonsh'', ''--status=1'',
                ''--execution-time=500'', ''--shell-version='' @ version]"
proof -
  have ctx: "get_command_context (history s) = Inr (1, 500)"
    using assms(1-3) by (simp add: get_command_context_10_105)
  show ?thesis
    using assms(4,5)
    by (simp add: ctx posh_primary_def posh_right_def getenv_def str_int_1 str_int_500 Let_def)
qed

theorem C3_status_1_duration_500_witness:
  "(let e = \<lparr>cmd = ''false'', rtn = 1, ts = [10, 21 / 2]\<rparr>;
        s = \<lparr>env = [''POSH_EXECUTABLE'' \<mapsto> ''::OMP::'', ''POSH_SHELL_VERSION'' \<mapsto> ''0.14.0''],
              PROMPT = Some Hook_posh_primary, RIGHT_PROMPT = Some Hook_posh_right,
              history = [\<lparr>cmd = ''ls'', rtn = 0, ts = [3, 4]\<rparr>] @ [e], uuid4_calls = 1\<rparr>
    in rtn e = 1 \<and> ts e = [10, 21 / 2]
     \<and> env s ''POSH_EXECUTABLE'' = Some ''::OMP::''
     \<and> env s ''POSH_SHELL_VERSION'' = Some ''0.14.0''
     \<and> get_command_context (history s) = Inr (1, 500)
     \<and> map_sum id (argv \<circ> fst) (posh_primary (\<lambda>_. ''> '') s) =
          Inr [''::OMP::'', ''print'', ''primary'', ''--shell=xonsh'', ''--status=1'',
               ''--execution-time=500'', ''--shell-version=0.14.0'']
     \<and> map_sum id (argv \<circ> fst) (posh_right (\<lambda>_. ''> '') s) =
          Inr [''::OMP::'', ''print'', ''right'', ''--shell=xonsh'', ''--status=1'',
               ''--execution-time=500'', ''--shell-version=0.14.0''])"
  using C3_status_1_duration_500
    [of "\<lparr>env = [''POSH_EXECUTABLE'' \<mapsto> ''::OMP::'', ''POSH_SHELL_VERSION'' \<mapsto> ''0.14.0''],
          PROMPT = Some Hook_posh_primary, RIGHT_PROMPT = Some Hook_posh_right,
          history = [\<lparr>cmd = ''ls'', rtn = 0, ts = [3, 4]\<rparr>]
                    @ [\<lparr>cmd = ''false'', rtn = 1, ts = [10, 21 / 2]\<rparr>], uuid4_calls = 1\<rparr>"
        "[\<lparr>cmd = ''ls'', rtn = 0, ts = [3, 4]\<rparr>]"
        "\<lparr>cmd = ''false'', rtn = 1, ts = [10, 21 / 2]\<rparr>" "''::OMP::''" "''0.14.0''" "\<lambda>_. ''> ''"]
  by (simp add: Let_def)

section \<open>The two calls of one prompt draw\<close>

text \<open>
  C4. Within one prompt draw the third word of the command line is \<^verbatim>\<open>primary\<close> in
  the call made by \<open>posh_primary\<close> and \<^verbatim>\<open>right\<close> in the call made by
  \<open>posh_right\<close>; the executable, the shell tag, the status, the execution time, the
  shell version and the environment are the same in both.
\<close>

theorem C4_calls_differ_in_mode_only:
  assumes "posh_primary run s = Inr (p, out)"
  shows "\<exists>r out'. posh_right run s = Inr (r, out')
           \<and> length (argv p) = 7 \<and> argv p ! 2 = ''primary'' \<and> argv r ! 2 = ''right''
           \<and> argv r = (argv p)[2 := ''right'']
           \<and> environ r = environ p"
  using assms
  by (auto simp: posh_primary_def posh_right_def Let_def split: sum.splits)

theorem C4_calls_differ_in_mode_only_witness:
  "\<exists>p out. posh_primary (\<lambda>_. ''> '') (example_shell [\<lparr>cmd = ''false'', rtn = 1, ts = [10, 21 / 2]\<rparr>])
              = Inr (p, out)
     \<and> argv p = [''::OMP::'', ''print'', ''primary'', ''--shell=xonsh'', ''--status=1'',
                 ''--execution-time=500'', ''--shell-version=0.14.0'']
     \<and> (\<exists>r out'. posh_right (\<lambda>_. ''> '') (example_shell [\<lparr>cmd = ''false'', rtn = 1, ts = [10, 21 / 2]\<rparr>])
                     = Inr (r, out')
            \<and> length (argv p) = 7 \<and> argv p ! 2 = ''primary'' \<and> argv r ! 2 = ''right''
            \<and> argv r = (argv p)[2 := ''right'']
            \<and> environ r = environ p)"
proof -
  let ?s = "example_shell [\<lparr>cmd = ''false'', rtn = 1, ts = [10, 21 / 2]\<rparr>]"
  let ?p = "\<lparr>argv = [''::OMP::'', ''print'', ''primary'', ''--shell=xonsh'', ''--status=1'',
                       ''--execution-time=500'', ''--shell-version=0.14.0''],
               environ = env ?s\<rparr>"
  have run: "posh_primary (\<lambda>_. ''> '') ?s = Inr (?p, ''> '')"
    by (simp add: example_shell_def prompt_eval capture_def)
  from C4_calls_differ_in_mode_only [OF run] run show ?thesis
    by simp
qed

section \<open>The returned prompt\<close>








section \<open>Rounding\<close>

lemma pow2_pos: "0 < pow2 k"
  by (simp add: pow2_def)


lemma round_half_even_near: "\<bar>real_of_int (round_half_even x) - x\<bar> \<le> 1 / 2"
proof -
  have "real_of_int \<lfloor>x\<rfloor> \<le> x" and "x < real_of_int \<lfloor>x\<rfloor> + 1"
    by linarith+
  then show ?thesis
    by (auto simp: round_half_even_def Let_def)
qed

lemma round_half_even_tie:
  assumes "\<bar>real_of_int (round_half_even x) - x\<bar> = 1 / 2"
  shows "even (round_half_even x)"
proof -
  have fl: "real_of_int \<lfloor>x\<rfloor> \<le> x" "x < real_of_int \<lfloor>x\<rfloor> + 1"
    by linarith+
  show ?thesis
  proof (cases "x - real_of_int \<lfloor>x\<rfloor> = 1 / 2")
    case True
    then show ?thesis by (simp add: round_half_even_def Let_def)
  next
    case False
    then show ?thesis
      using assms fl by (auto simp: round_half_even_def Let_def split: if_splits)
  qed
qed

lemma round_half_even_unique:
  assumes "\<bar>real_of_int n - x\<bar> \<le> 1 / 2"
    and "\<bar>real_of_int n - x\<bar> = 1 / 2 \<Longrightarrow> even n"
  shows "round_half_even x = n"
proof -
  have fl: "real_of_int \<lfloor>x\<rfloor> \<le> x" "x < real_of_int \<lfloor>x\<rfloor> + 1"
    by linarith+
  have "n = \<lfloor>x\<rfloor> \<or> n = \<lfloor>x\<rfloor> + 1"
    using assms(1) fl by linarith
  then show ?thesis
    using assms fl by (auto simp: round_half_even_def Let_def split: if_splits)
qed

lemma round_half_even_half_up:
  "round_half_even x =
     (if x - real_of_int \<lfloor>x\<rfloor> = 1 / 2 \<and> even \<lfloor>x\<rfloor> then \<lfloor>x\<rfloor> else round_half_up x)"
proof -
  have fl: "real_of_int \<lfloor>x\<rfloor> \<le> x" "x < real_of_int \<lfloor>x\<rfloor> + 1"
    by linarith+
  have up: "round_half_up x = (if x - real_of_int \<lfloor>x\<rfloor> < 1 / 2 then \<lfloor>x\<rfloor> else \<lfloor>x\<rfloor> + 1)"
  proof (cases "x - real_of_int \<lfloor>x\<rfloor> < 1 / 2")
    case True
    then have "\<lfloor>x + 1 / 2\<rfloor> = \<lfloor>x\<rfloor>"
      using fl by (intro floor_unique) linarith+
    with True show ?thesis by (simp add: round_half_up_def)
  next
    case False
    then have "\<lfloor>x + 1 / 2\<rfloor> = \<lfloor>x\<rfloor> + 1"
      using fl by (intro floor_unique) (simp_all, linarith+)
    with False show ?thesis by (simp add: round_half_up_def)
  qed
  show ?thesis
    unfolding up by (auto simp: round_half_even_def Let_def)
qed




lemma get_command_context_Inr:
  assumes "get_command_context h = Inr (status, duration)" and "h \<noteq> []"
  shows "2 \<le> length (ts (last h)) \<and> status = rtn (last h)
       \<and> (\<exists>d p. binary64 (ts (last h) ! 1 - ts (last h) ! 0) = Finite d
                \<and> binary64 (d * 1000) = Finite p
                \<and> duration = round_half_even p)"
proof -
  let ?t = "ts (last h)"
  have len: "2 \<le> length ?t"
    using assms by (auto simp: get_command_context_def getitem_def split: if_splits)
  then have g: "getitem ?t (Suc 0) = Inr (?t ! 1)" "getitem ?t 0 = Inr (?t ! 0)"
    by (auto simp: getitem_def)
  have r: "py_round (float_mul_int (binary64 (?t ! 1 - ?t ! 0)) 1000) = Inr duration"
    and st: "status = rtn (last h)"
    using assms by (auto simp: get_command_context_def g split: sum.splits)
  obtain d where d: "binary64 (?t ! 1 - ?t ! 0) = Finite d"
    using r by (cases "binary64 (?t ! 1 - ?t ! 0)") auto
  obtain p where p: "binary64 (d * 1000) = Finite p"
    using r d by (cases "binary64 (d * 1000)") auto
  have "duration = round_half_even p"
    using r d p by simp
  with len st d p show ?thesis by blast
qed

section \<open>The sign of the duration\<close>




section \<open>The rounding of the duration\<close>

text \<open>
  C2, as the specification states it, has the duration equal to the elapsed milliseconds
  rounded half-up. Python's \<^verbatim>\<open>round\<close> sends a tie to the even integer: from
  \<open>0.0\<close> to \<open>0.0625\<close> the product is exactly \<open>62.5\<close>, half-up gives 63 and the
  code gives 62.
\<close>

theorem C2_half_up_counterexample:
  "get_command_context [\<lparr>cmd = ''sleep 0.0625'', rtn = 0, ts = [0, 1 / 16]\<rparr>] = Inr (0, 62)
   \<and> round_half_up ((1 / 16 - 0) * 1000) = 63
   \<and> binary64 (1 / 16) = Finite (1 / 16)"
  by (simp add: context_eval round_half_up_def)

text \<open>
  The specification's own example: the float written \<^verbatim>\<open>1.2345\<close> is
  \<open>5559693739988877 / 2^52\<close>, its product with 1000 rounds to the float \<open>1234.5\<close>, and
  the duration is 1234.
\<close>

lemma binary64_of_1_2345:
  "binary64 (12345 / 10000) = Finite (5559693739988877 / 2 ^ 52)"
  by (simp add: float_eval)

lemma duration_of_1_2345:
  "get_command_context [\<lparr>cmd = ''sleep 1.2345'', rtn = 0, ts = [0, 5559693739988877 / 2 ^ 52]\<rparr>]
     = Inr (0, 1234)"
  by (simp add: context_eval)

text \<open>
  C2, amended. For a non-empty history on which \<open>get_command_context\<close> returns, the
  duration is Python's \<^verbatim>\<open>round\<close> of the float product
  \<^verbatim>\<open>(ts[1] - ts[0]) * 1000\<close>: an integer at most one half away from it, even
  when exactly one half away. It is the half-up rounding of that product except when
  the product lies exactly halfway above an even integer, where it is that even integer.
\<close>

theorem C2_duration_rounds_half_even:
  assumes "get_command_context h = Inr (status, duration)" and "h \<noteq> []"
  shows "\<exists>p. float_mul_int (float_sub (Finite (ts (last h) ! 1)) (Finite (ts (last h) ! 0))) 1000
               = Finite p
           \<and> \<bar>real_of_int duration - p\<bar> \<le> 1 / 2
           \<and> (\<bar>real_of_int duration - p\<bar> = 1 / 2 \<longrightarrow> even duration)
           \<and> duration = (if p - real_of_int \<lfloor>p\<rfloor> = 1 / 2 \<and> even \<lfloor>p\<rfloor> then \<lfloor>p\<rfloor>
                          else round_half_up p)"
proof -
  obtain d p where d: "binary64 (ts (last h) ! 1 - ts (last h) ! 0) = Finite d"
    and p: "binary64 (d * 1000) = Finite p" and r: "duration = round_half_even p"
    using get_command_context_Inr [OF assms] by blast
  have "float_mul_int (float_sub (Finite (ts (last h) ! 1)) (Finite (ts (last h) ! 0))) 1000
          = Finite p"
    using d p by simp
  moreover have "\<bar>real_of_int duration - p\<bar> \<le> 1 / 2"
    unfolding r by (rule round_half_even_near)
  moreover have "\<bar>real_of_int duration - p\<bar> = 1 / 2 \<longrightarrow> even duration"
    unfolding r using round_half_even_tie by blast
  moreover have "duration = (if p - real_of_int \<lfloor>p\<rfloor> = 1 / 2 \<and> even \<lfloor>p\<rfloor> then \<lfloor>p\<rfloor>
                             else round_half_up p)"
    unfolding r by (rule round_half_even_half_up)
  ultimately show ?thesis by blast
qed

theorem C2_duration_rounds_half_even_witness:
  "get_command_context [\<lparr>cmd = ''sleep 0.0625'', rtn = 0, ts = [0, 1 / 16]\<rparr>] = Inr (0, 62)
   \<and> [\<lparr>cmd = ''sleep 0.0625'', rtn = 0, ts = [0, 1 / 16 :: real]\<rparr>] \<noteq> []
   \<and> (\<exists>p. float_mul_int
              (float_sub
                 (Finite (ts (last [\<lparr>cmd = ''sleep 0.0625'', rtn = 0, ts = [0, 1 / 16]\<rparr>]) ! 1))
                 (Finite (ts (last [\<lparr>cmd = ''sleep 0.0625'', rtn = 0, ts = [0, 1 / 16]\<rparr>]) ! 0)))
              1000 = Finite p
          \<and> \<bar>real_of_int 62 - p\<bar> \<le> 1 / 2
          \<and> (\<bar>real_of_int 62 - p\<bar> = 1 / 2 \<longrightarrow> even (62 :: int))
          \<and> 62 = (if p - real_of_int \<lfloor>p\<rfloor> = 1 / 2 \<and> even \<lfloor>p\<rfloor> then \<lfloor>p\<rfloor>
                   else round_half_up p))"
proof -
  let ?h = "[\<lparr>cmd = ''sleep 0.0625'', rtn = 0, ts = [0, 1 / 16 :: real]\<rparr>]"
  have run: "get_command_context ?h = Inr (0, 62)"
    by (simp add: context_eval)
  have ne: "?h \<noteq> []"
    by simp
  from C2_duration_rounds_half_even [OF run ne] run ne show ?thesis
    by blast
qed

section \<open>Sessions\<close>

lemma load_script_Inr:
  assumes "load_script rnd s0 = Inr s"
  shows "\<exists>version. env s0 ''XONSH_VERSION'' = Some version
           \<and> env s = (env s0)(''POWERLINE_COMMAND'' \<mapsto> ''OMP'', ''POSH_THEME'' \<mapsto> ''::CONFIG::'',
                               ''POSH_PID'' \<mapsto> rnd (uuid4_calls s0),
                               ''POSH_SHELL_VERSION'' \<mapsto> version,
                               ''POSH_EXECUTABLE'' \<mapsto> ''::OMP::'')
           \<and> PROMPT s = Some Hook_posh_primary \<and> RIGHT_PROMPT s = Some Hook_posh_right
           \<and> history s = history s0 \<and> uuid4_calls s = Suc (uuid4_calls s0)"
  using assms
  by (auto simp: load_script_def setenv_def getenv_def uuid4_hex_def Let_def
      split: option.splits sum.splits)

lemma session_frame:
  assumes "session run s evs = (outs, s')"
  shows "env s' = env s \<and> PROMPT s' = PROMPT s \<and> RIGHT_PROMPT s' = RIGHT_PROMPT s
       \<and> uuid4_calls s' = uuid4_calls s"
  using assms
proof (induction evs arbitrary: s outs)
  case Nil
  then show ?case by simp
next
  case (Cons ev evs)
  show ?case
  proof (cases ev)
    case (Run_Command e)
    with Cons.prems have "session run (s\<lparr>history := history s @ [e]\<rparr>) evs = (outs, s')"
      by simp
    from Cons.IH [OF this] show ?thesis by simp
  next
    case Draw_Prompt
    with Cons.prems obtain outs' where "session run s evs = (outs', s')"
      by (auto simp: Let_def split: prod.splits)
    from Cons.IH [OF this] show ?thesis .
  qed
qed

lemma posh_primary_call:
  assumes "posh_primary run s = Inr (call, out)"
  shows "\<exists>status duration exe version.
           env s ''POSH_EXECUTABLE'' = Some exe \<and> env s ''POSH_SHELL_VERSION'' = Some version
         \<and> get_command_context (history s) = Inr (status, duration)
         \<and> argv call = [exe, ''print'', ''primary'', ''--shell=xonsh'',
                         ''--status='' @ str_int status,
                         ''--execution-time='' @ str_int duration,
                         ''--shell-version='' @ version]
         \<and> environ call = env s"
  using assms
  by (auto simp: posh_primary_def getenv_def Let_def split: sum.splits option.splits)

lemma posh_right_call:
  assumes "posh_right run s = Inr (call, out)"
  shows "\<exists>status duration exe version.
           env s ''POSH_EXECUTABLE'' = Some exe \<and> env s ''POSH_SHELL_VERSION'' = Some version
         \<and> get_command_context (history s) = Inr (status, duration)
         \<and> argv call = [exe, ''print'', ''right'', ''--shell=xonsh'',
                         ''--status='' @ str_int status,
                         ''--execution-time='' @ str_int duration,
                         ''--shell-version='' @ version]
         \<and> environ call = env s"
  using assms
  by (auto simp: posh_right_def getenv_def Let_def split: sum.splits option.splits)

text \<open>Every call made during a session is made by one of the two prompt functions in a
  state that has the session's environment.\<close>

lemma session_calls:
  assumes "session run s evs = (outs, s')" and "Inr (call, out) \<in> set outs"
  shows "\<exists>s1. env s1 = env s \<and> (posh_primary run s1 = Inr (call, out) \<or> posh_right run s1 = Inr (call, out))"
  using assms
proof (induction evs arbitrary: s outs)
  case Nil
  then show ?case by simp
next
  case (Cons ev evs)
  show ?case
  proof (cases ev)
    case (Run_Command e)
    with Cons.prems have "session run (s\<lparr>history := history s @ [e]\<rparr>) evs = (outs, s')"
      by simp
    from Cons.IH [OF this Cons.prems(2)] show ?thesis by simp
  next
    case Draw_Prompt
    with Cons.prems obtain outs' where rest: "session run s evs = (outs', s')"
      and outs: "outs = call_hook run s (PROMPT s) @ call_hook run s (RIGHT_PROMPT s) @ outs'"
      by (auto simp: Let_def split: prod.splits)
    have hook: "Inr (call, out) \<in> set (call_hook run s h) \<Longrightarrow>
        posh_primary run s = Inr (call, out) \<or> posh_right run s = Inr (call, out)" for h
      by (cases "(run, s, h)" rule: call_hook.cases) auto
    from Cons.prems(2) outs consider
      "Inr (call, out) \<in> set (call_hook run s (PROMPT s))"
      | "Inr (call, out) \<in> set (call_hook run s (RIGHT_PROMPT s))"
      | "Inr (call, out) \<in> set outs'"
      by auto
    then show ?thesis
    proof cases
      case 1
      with hook show ?thesis by blast
    next
      case 2
      with hook show ?thesis by blast
    next
      case 3
      from Cons.IH [OF rest this] show ?thesis .
    qed
  qed
qed


lemma load_script_fresh: "load_script example_uuid fresh_shell = Inr (loaded_shell [])"
  by (simp add: load_script_def fresh_shell_def example_uuid_def loaded_shell_def setenv_def
      getenv_def uuid4_hex_def)

lemma session_example:
  "session (\<lambda>_. ''> '') (loaded_shell [])
     [Draw_Prompt, Run_Command \<lparr>cmd = ''false'', rtn = 1, ts = [10, 21 / 2]\<rparr>, Draw_Prompt]
   = ([Inr (example_call ''primary'' ''0'' ''0'', ''> ''),
       Inr (example_call ''right'' ''0'' ''0'', ''> ''),
       Inr (example_call ''primary'' ''1'' ''500'', ''> ''),
       Inr (example_call ''right'' ''1'' ''500'', ''> '')],
      loaded_shell [\<lparr>cmd = ''false'', rtn = 1, ts = [10, 21 / 2]\<rparr>])"
  by (simp add: loaded_shell_def example_call_def prompt_eval capture_def)

text \<open>
  C5. Every renderer call made during a session that starts with the sourcing of the
  script has the command line
  \<^verbatim>\<open><executable> print <primary|right> --shell=xonsh --status=<int>
  --execution-time=<int> --shell-version=<string>\<close>. The executable is the path
  written into \<^verbatim>\<open>$POSH_EXECUTABLE\<close> when the script was sourced, the theme is the
  reference written into \<^verbatim>\<open>$POSH_THEME\<close> then, and the version is the shell's
  version read then: no call resolves them again.
\<close>

theorem C5_invocation_shape:
  assumes "load_script rnd s0 = Inr s" and "session run s evs = (outs, s')"
    and "Inr (call, out) \<in> set outs"
  shows "\<exists>mode status duration version.
           (mode = ''primary'' \<or> mode = ''right'')
         \<and> env s0 ''XONSH_VERSION'' = Some version
         \<and> argv call = [''::OMP::'', ''print'', mode, ''--shell=xonsh'',
                         ''--status='' @ str_int status,
                         ''--execution-time='' @ str_int duration,
                         ''--shell-version='' @ version]
         \<and> environ call ''POSH_EXECUTABLE'' = Some ''::OMP::''
         \<and> environ call ''POSH_THEME'' = Some ''::CONFIG::''"
proof -
  from load_script_Inr [OF assms(1)] obtain version
    where v: "env s0 ''XONSH_VERSION'' = Some version"
      and e: "env s = (env s0)(''POWERLINE_COMMAND'' \<mapsto> ''OMP'', ''POSH_THEME'' \<mapsto> ''::CONFIG::'',
                               ''POSH_PID'' \<mapsto> rnd (uuid4_calls s0),
                               ''POSH_SHELL_VERSION'' \<mapsto> version,
                               ''POSH_EXECUTABLE'' \<mapsto> ''::OMP::'')"
    by blast
  from session_calls [OF assms(2,3)] obtain s1 where s1: "env s1 = env s"
    and c: "posh_primary run s1 = Inr (call, out) \<or> posh_right run s1 = Inr (call, out)"
    by blast
  have exe: "env s1 ''POSH_EXECUTABLE'' = Some ''::OMP::''"
    and ver: "env s1 ''POSH_SHELL_VERSION'' = Some version"
    and theme: "env s1 ''POSH_THEME'' = Some ''::CONFIG::''"
    by (simp_all add: s1 e)
  from c show ?thesis
  proof
    assume "posh_primary run s1 = Inr (call, out)"
    from posh_primary_call [OF this] exe ver theme v show ?thesis by auto
  next
    assume "posh_right run s1 = Inr (call, out)"
    from posh_right_call [OF this] exe ver theme v show ?thesis by auto
  qed
qed

theorem C5_invocation_shape_witness:
  "load_script example_uuid fresh_shell = Inr (loaded_shell [])
   \<and> Inr (example_call ''right'' ''1'' ''500'', ''> '')
       \<in> set (fst (session (\<lambda>_. ''> '') (loaded_shell [])
                    [Draw_Prompt, Run_Command \<lparr>cmd = ''false'', rtn = 1, ts = [10, 21 / 2]\<rparr>,
                     Draw_Prompt]))
   \<and> (\<exists>mode status duration version.
          (mode = ''primary'' \<or> mode = ''right'')
        \<and> env fresh_shell ''XONSH_VERSION'' = Some version
        \<and> argv (example_call ''right'' ''1'' ''500'') =
             [''::OMP::'', ''print'', mode, ''--shell=xonsh'', ''--status='' @ str_int status,
              ''--execution-time='' @ str_int duration, ''--shell-version='' @ version]
        \<and> environ (example_call ''right'' ''1'' ''500'') ''POSH_EXECUTABLE'' = Some ''::OMP::''
        \<and> environ (example_call ''right'' ''1'' ''500'') ''POSH_THEME'' = Some ''::CONFIG::'')"
proof -
  have mem: "Inr (example_call ''right'' ''1'' ''500'', ''> '')
      \<in> set [Inr (example_call ''primary'' ''0'' ''0'', ''> ''),
              Inr (example_call ''right'' ''0'' ''0'', ''> ''),
              Inr (example_call ''primary'' ''1'' ''500'', ''> ''),
              Inr (example_call ''right'' ''1'' ''500'', ''> '')]"
    by simp
  have mem': "Inr (example_call ''right'' ''1'' ''500'', ''> '')
      \<in> set (fst (session (\<lambda>_. ''> '') (loaded_shell [])
                   [Draw_Prompt, Run_Command \<lparr>cmd = ''false'', rtn = 1, ts = [10, 21 / 2]\<rparr>,
                    Draw_Prompt]))"
    unfolding session_example fst_conv by (rule mem)
  from C5_invocation_shape [OF load_script_fresh session_example mem] load_script_fresh mem'
  show ?thesis
    by blast
qed

text \<open>
  C8. The session identifier is generated once, when the script is sourced: sourcing
  makes exactly one call to \<^verbatim>\<open>uuid.uuid4\<close> and a session of prompt draws and
  commands makes none. Every renderer call of the session sees that identifier in
  \<^verbatim>\<open>$POSH_PID\<close>, and the variable still holds it when the session ends.
\<close>

theorem C8_session_identifier_fixed:
  assumes "load_script rnd s0 = Inr s" and "session run s evs = (outs, s')"
  shows "uuid4_calls s = Suc (uuid4_calls s0) \<and> uuid4_calls s' = uuid4_calls s
       \<and> env s ''POSH_PID'' = Some (rnd (uuid4_calls s0))
       \<and> env s' ''POSH_PID'' = Some (rnd (uuid4_calls s0))
       \<and> (\<forall>call out. Inr (call, out) \<in> set outs \<longrightarrow>
             environ call ''POSH_PID'' = Some (rnd (uuid4_calls s0)))"
proof -
  from load_script_Inr [OF assms(1)] obtain version
    where e: "env s = (env s0)(''POWERLINE_COMMAND'' \<mapsto> ''OMP'', ''POSH_THEME'' \<mapsto> ''::CONFIG::'',
                               ''POSH_PID'' \<mapsto> rnd (uuid4_calls s0),
                               ''POSH_SHELL_VERSION'' \<mapsto> version,
                               ''POSH_EXECUTABLE'' \<mapsto> ''::OMP::'')"
      and u: "uuid4_calls s = Suc (uuid4_calls s0)"
    by blast
  have pid: "env s ''POSH_PID'' = Some (rnd (uuid4_calls s0))"
    by (simp add: e)
  from session_frame [OF assms(2)] have fr: "env s' = env s" "uuid4_calls s' = uuid4_calls s"
    by simp_all
  have "environ call ''POSH_PID'' = Some (rnd (uuid4_calls s0))"
    if "Inr (call, out) \<in> set outs" for call out
  proof -
    from session_calls [OF assms(2) that] obtain s1 where s1: "env s1 = env s"
      and c: "posh_primary run s1 = Inr (call, out) \<or> posh_right run s1 = Inr (call, out)"
      by blast
    from c have "environ call = env s1"
      using posh_primary_call posh_right_call by blast
    then show ?thesis by (simp add: s1 pid)
  qed
  with u pid fr show ?thesis by simp
qed


theorem C8_session_identifier_fixed_witness:
  "load_script example_uuid fresh_shell = Inr (loaded_shell [])
   \<and> uuid4_calls fresh_shell = 0 \<and> uuid4_calls (loaded_shell []) = 1
   \<and> uuid4_calls (loaded_shell [\<lparr>cmd = ''false'', rtn = 1, ts = [10, 21 / 2]\<rparr>]) = 1
   \<and> env (loaded_shell [\<lparr>cmd = ''false'', rtn = 1, ts = [10, 21 / 2]\<rparr>]) ''POSH_PID''
       = Some (example_uuid 0)
   \<and> environ (example_call ''right'' ''1'' ''500'') ''POSH_PID'' = Some (example_uuid 0)"
proof -
  have mem: "Inr (example_call ''right'' ''1'' ''500'', ''> '')
      \<in> set [Inr (example_call ''primary'' ''0'' ''0'', ''> ''),
              Inr (example_call ''right'' ''0'' ''0'', ''> ''),
              Inr (example_call ''primary'' ''1'' ''500'', ''> ''),
              Inr (example_call ''right'' ''1'' ''500'', ''> '')]"
    by simp
  have zero: "uuid4_calls fresh_shell = 0"
    by (simp add: fresh_shell_def)
  from C8_session_identifier_fixed [OF load_script_fresh session_example] mem zero
    load_script_fresh
  show ?thesis
    by auto
qed

section \<open>The binary exponent and the size of a rounded result\<close>

lemma bit_length_pos: "0 < n \<Longrightarrow> 0 < bit_length n"
  by (subst bit_length.simps) simp

lemma bit_length_bounds:
  "0 < n \<Longrightarrow> 2 ^ (bit_length n - 1) \<le> n \<and> n < 2 ^ bit_length n"
proof (induction n rule: bit_length.induct)
  case (1 n)
  show ?case
  proof (cases "n div 2 = 0")
    case True
    with "1.prems" have "n = 1" by (simp add: div_eq_0_iff) 
    then show ?thesis by (simp add: bit_length_Suc_0)
  next
    case False
    then have pos: "0 < n div 2" by simp
    define b where "b = bit_length (n div 2)"
    have b: "bit_length n = Suc b"
      using "1.prems" by (subst bit_length.simps) (simp add: b_def)
    have "0 < b" unfolding b_def using pos by (rule bit_length_pos)
    have IH: "2 ^ (b - 1) \<le> n div 2" "n div 2 < 2 ^ b"
      using "1.IH" "1.prems" pos by (simp_all add: b_def)
    have "2 * 2 ^ (b - 1) \<le> n" using IH(1) by linarith
    moreover have "2 * 2 ^ (b - 1) = (2::nat) ^ b"
      using \<open>0 < b\<close> by (cases b) simp_all
    moreover have "n < 2 * 2 ^ b" using IH(2) by linarith
    ultimately show ?thesis by (simp add: b)
  qed
qed

lemma pow2_powr: "pow2 k = 2 powr real_of_int k"
proof (cases "0 \<le> k")
  case True
  then have "2 powr real_of_int k = 2 powr real (nat k)" by simp
  also have "\<dots> = 2 ^ nat k" by (rule powr_realpow) simp
  finally show ?thesis using True by (simp add: pow2_def)
next
  case False
  then have "2 powr real_of_int k = 2 powr (- real (nat (- k)))" by simp
  also have "\<dots> = 1 / 2 powr real (nat (- k))" by (simp add: powr_minus divide_inverse)
  also have "2 powr real (nat (- k)) = 2 ^ nat (- k)" by (rule powr_realpow) simp
  finally show ?thesis using False by (simp add: pow2_def)
qed

lemma pow2_add: "pow2 (a + b) = pow2 a * pow2 b"
  by (simp add: pow2_powr powr_add)

lemma pow2_mono: "a \<le> b \<Longrightarrow> pow2 a \<le> pow2 b"
  by (simp add: pow2_powr)

lemma pow2_nat: "pow2 (int n) = 2 ^ n"
  by (simp add: pow2_powr powr_realpow)

lemma pow2_neg_nat: "pow2 (- int n) = 1 / 2 ^ n"
  by (simp add: pow2_powr powr_minus powr_realpow divide_inverse)

lemma ilog2_bounds:
  assumes "0 < x"
  shows "pow2 (ilog2 x) \<le> x \<and> x < pow2 (ilog2 x + 1)"
proof (cases "1 \<le> x")
  case True
  define n where "n = nat \<lfloor>x\<rfloor>"
  define b where "b = bit_length n"
  have "1 \<le> \<lfloor>x\<rfloor>" using True by simp
  then have rn: "real n = real_of_int \<lfloor>x\<rfloor>" and n0: "0 < n"
    by (simp_all add: n_def)
  have n: "0 < n" "real n \<le> x" "x < real n + 1"
    unfolding rn using n0 by (simp, linarith, linarith)
  have bb: "2 ^ (b - 1) \<le> n" "n < 2 ^ b" "0 < b"
    using bit_length_bounds [OF n(1)] bit_length_pos [OF n(1)] by (simp_all add: b_def)
  have e: "ilog2 x = int b - 1"
    using True by (simp add: ilog2_def n_def b_def)
  have "int b - 1 = int (b - 1)" using bb(3) by simp
  then have lo: "pow2 (ilog2 x) = 2 ^ (b - 1)"
    unfolding e by (simp only: pow2_nat)
  have hi: "pow2 (ilog2 x + 1) = 2 ^ b"
    unfolding e by (simp add: pow2_nat)
  have "real (2 ^ (b - 1)) \<le> real n"
    using bb(1) by (rule of_nat_mono)
  then have r1: "(2::real) ^ (b - 1) \<le> real n" by simp
  have "Suc n \<le> 2 ^ b" using bb(2) by simp
  then have "real (Suc n) \<le> real (2 ^ b)" by (rule of_nat_mono)
  then have r2: "real n + 1 \<le> 2 ^ b" by simp
  show ?thesis
    unfolding lo hi using n r1 r2 by linarith
next
  case False
  define y where "y = 1 / x"
  define m where "m = nat (\<lceil>y\<rceil> - 1)"
  define b where "b = bit_length m"
  have y: "1 < y" using False assms by (simp add: y_def)
  then have c: "2 \<le> \<lceil>y\<rceil>" by linarith
  have rm: "real m = real_of_int \<lceil>y\<rceil> - 1" and m0: "0 < m"
    using c by (simp_all add: m_def)
  have m: "0 < m" "real m < y" "y \<le> real m + 1"
    unfolding rm using m0 by (simp, linarith, linarith)
  have bb: "2 ^ (b - 1) \<le> m" "m < 2 ^ b" "0 < b"
    using bit_length_bounds [OF m(1)] bit_length_pos [OF m(1)] by (simp_all add: b_def)
  have e: "ilog2 x = - int b"
    using False by (simp add: ilog2_def y_def m_def b_def)
  have lo: "pow2 (ilog2 x) = 1 / 2 ^ b"
    unfolding e by (rule pow2_neg_nat)
  have "- int b + 1 = - int (b - 1)" using bb(3) by simp
  then have hi: "pow2 (ilog2 x + 1) = 1 / 2 ^ (b - 1)"
    unfolding e by (simp only: pow2_neg_nat)
  have "real (2 ^ (b - 1)) \<le> real m"
    using bb(1) by (rule of_nat_mono)
  then have r1: "(2::real) ^ (b - 1) \<le> real m" by simp
  have "Suc m \<le> 2 ^ b" using bb(2) by simp
  then have "real (Suc m) \<le> real (2 ^ b)" by (rule of_nat_mono)
  then have r2: "real m + 1 \<le> 2 ^ b" by simp
  have p1: "(0::real) < 2 ^ (b - 1)" and p2: "(0::real) < 2 ^ b" by simp_all
  have "2 ^ (b - 1) < 1 / x" using r1 m(2) unfolding y_def by linarith
  then have "2 ^ (b - 1) * x < 1"
    using assms by (simp only: pos_less_divide_eq)
  then have "x * 2 ^ (b - 1) < 1" by (simp only: mult.commute)
  then have u: "x < 1 / 2 ^ (b - 1)"
    using p1 by (simp only: pos_less_divide_eq)
  have "1 / x \<le> 2 ^ b" using r2 m(3) unfolding y_def by linarith
  then have "1 \<le> 2 ^ b * x"
    using assms by (simp only: pos_divide_le_eq)
  then have "1 \<le> x * 2 ^ b" by (simp only: mult.commute)
  then have l: "1 / 2 ^ b \<le> x"
    using p2 by (simp only: pos_divide_le_eq)
  show ?thesis
    unfolding lo hi using u l by simp
qed


lemma pow2_half: "pow2 (k - 53) = pow2 (k - 52) / 2"
proof -
  have "pow2 (k - 52) = pow2 ((k - 53) + 1)" by simp
  also have "\<dots> = pow2 (k - 53) * pow2 1" by (rule pow2_add)
  also have "pow2 1 = 2" by (simp add: pow2_def)
  finally show ?thesis by simp
qed

text \<open>The rounding error of one operation is at most half a unit in the last place.\<close>

lemma binary64_error:
  assumes "binary64 x = Finite y"
  shows "\<bar>y - x\<bar> \<le> pow2 (max (ilog2 \<bar>x\<bar>) (- 1022) - 53)"
proof (cases "x = 0")
  case True
  then have "y = 0" using assms by (simp add: binary64_def)
  with True show ?thesis using pow2_pos [of "max (ilog2 \<bar>x\<bar>) (- 1022) - 53"] by simp
next
  case False
  define u where "u = pow2 (max (ilog2 \<bar>x\<bar>) (- 1022) - 52)"
  define n where "n = round_half_even (x / u)"
  have u: "0 < u" by (simp add: u_def pow2_pos)
  have y: "y = real_of_int n * u"
    using assms False by (simp add: binary64_def Let_def u_def n_def split: if_splits)
  have "\<bar>real_of_int n - x / u\<bar> \<le> 1 / 2"
    unfolding n_def by (rule round_half_even_near)
  then have "\<bar>real_of_int n - x / u\<bar> * u \<le> 1 / 2 * u"
    using u by (simp only: mult_le_cancel_right_pos)
  moreover have "\<bar>real_of_int n - x / u\<bar> * u = \<bar>(real_of_int n - x / u) * u\<bar>"
    using u by (simp add: abs_mult)
  moreover have "(real_of_int n - x / u) * u = y - x"
    using u by (simp add: y left_diff_distrib)
  ultimately have "\<bar>y - x\<bar> \<le> u / 2" by simp
  then show ?thesis
    unfolding u_def pow2_half [symmetric] .
qed







section \<open>Failures of \<open>get_command_context\<close>\<close>




section \<open>How far the duration is from the exact elapsed time\<close>

text \<open>Relative form of the rounding error: one part in \<open>2^53\<close>, or \<open>2^-1075\<close> for a
  subnormal result.\<close>

lemma binary64_relative_error:
  assumes "binary64 x = Finite y"
  shows "\<bar>y - x\<bar> \<le> (\<bar>x\<bar> + 1) / 2 ^ 53"
proof (cases "x = 0")
  case True
  then have "y = 0" using assms by (simp add: binary64_def)
  with True show ?thesis by simp
next
  case False
  have e: "\<bar>y - x\<bar> \<le> pow2 (max (ilog2 \<bar>x\<bar>) (- 1022) - 53)"
    using assms by (rule binary64_error)
  have m53: "pow2 (- 53) = 1 / 2 ^ 53"
    using pow2_neg_nat [of 53] by simp
  show ?thesis
  proof (cases "- 1022 \<le> ilog2 \<bar>x\<bar>")
    case True
    then have "pow2 (max (ilog2 \<bar>x\<bar>) (- 1022) - 53) = pow2 (ilog2 \<bar>x\<bar> + (- 53))"
      by (simp add: max_def)
    also have "\<dots> = pow2 (ilog2 \<bar>x\<bar>) * pow2 (- 53)" by (rule pow2_add)
    also have "\<dots> \<le> \<bar>x\<bar> * pow2 (- 53)"
      using ilog2_bounds [of "\<bar>x\<bar>"] False pow2_pos [of "- 53"]
      by (simp only: mult_le_cancel_right_pos)
    finally show ?thesis using e unfolding m53 by (simp add: add_divide_distrib)
  next
    case False
    then have "pow2 (max (ilog2 \<bar>x\<bar>) (- 1022) - 53) = pow2 (- 1075)"
      by (simp add: max_def)
    also have "\<dots> \<le> pow2 (- 53)" by (rule pow2_mono) simp
    finally show ?thesis using e unfolding m53 by (simp add: add_divide_distrib)
  qed
qed

text \<open>
  For a command that ran for at most \<open>2^31\<close> seconds, the duration is within
  \<open>1/2 + 2^-10\<close> of the exact number of elapsed milliseconds.
\<close>

lemma duration_accuracy:
  assumes "get_command_context h = Inr (status, duration)" and "h \<noteq> []"
    and "\<bar>ts (last h) ! 1 - ts (last h) ! 0\<bar> \<le> 2 ^ 31"
  shows "\<bar>real_of_int duration - (ts (last h) ! 1 - ts (last h) ! 0) * 1000\<bar> \<le> 1 / 2 + 1 / 2 ^ 10"
proof -
  define a where "a = ts (last h) ! 1 - ts (last h) ! 0"
  obtain d p where d: "binary64 a = Finite d"
    and p: "binary64 (d * 1000) = Finite p" and r: "duration = round_half_even p"
    using get_command_context_Inr [OF assms(1,2)] unfolding a_def by blast
  have a: "\<bar>a\<bar> \<le> 2147483648" using assms(3) by (simp add: a_def)
  have "\<bar>d - a\<bar> \<le> (\<bar>a\<bar> + 1) / 9007199254740992"
    using binary64_relative_error [OF d] by simp
  also have "\<dots> \<le> (2147483648 + 1) / 9007199254740992"
    using a by (intro divide_right_mono) simp_all
  finally have e1: "\<bar>d - a\<bar> \<le> 2147483649 / 9007199254740992" by simp
  have "2147483649 / 9007199254740992 \<le> (1::real)" by simp
  with e1 have "\<bar>d - a\<bar> \<le> 1" by (rule order_trans)
  then have d1: "\<bar>d\<bar> \<le> 2147483649" using a by linarith
  have "\<bar>d * 1000\<bar> = \<bar>d\<bar> * 1000" by (simp add: abs_mult)
  then have d2: "\<bar>d * 1000\<bar> \<le> 2147483649000" using d1 by linarith
  have "\<bar>p - d * 1000\<bar> \<le> (\<bar>d * 1000\<bar> + 1) / 9007199254740992"
    using binary64_relative_error [OF p] by simp
  also have "\<dots> \<le> (2147483649000 + 1) / 9007199254740992"
    using d2 by (intro divide_right_mono) simp_all
  finally have e2: "\<bar>p - d * 1000\<bar> \<le> 2147483649001 / 9007199254740992" by simp
  have e3: "\<bar>real_of_int duration - p\<bar> \<le> 1 / 2"
    unfolding r by (rule round_half_even_near)
  have e4: "\<bar>d * 1000 - a * 1000\<bar> \<le> 2147483649000 / 9007199254740992"
    using e1 by linarith
  have "\<bar>real_of_int duration - a * 1000\<bar>
      \<le> \<bar>real_of_int duration - p\<bar> + \<bar>p - d * 1000\<bar> + \<bar>d * 1000 - a * 1000\<bar>"
    by linarith
  also have "\<dots> \<le> 1 / 2 + 2147483649001 / 9007199254740992 + 2147483649000 / 9007199254740992"
    using e2 e3 e4 by linarith
  also have "\<dots> \<le> 1 / 2 + 1 / 1024" by simp
  finally have "\<bar>real_of_int duration - a * 1000\<bar> \<le> 1 / 2 + 1 / 1024" .
  then show ?thesis by (simp add: a_def)
qed

section \<open>The decimal form of the numeric arguments\<close>

lemma digit_char_digit: "d < 10 \<Longrightarrow> digit_char d \<in> set ''0123456789''"
  unfolding digit_char_def by (rule nth_mem) simp

lemma str_nat_digits: "str_nat n \<noteq> [] \<and> set (str_nat n) \<subseteq> set ''0123456789''"
proof (induction n rule: str_nat.induct)
  case (1 n)
  show ?case
  proof (cases "n < 10")
    case True
    then show ?thesis
      using digit_char_digit [of n] by (subst (1 2) str_nat.simps) simp
  next
    case False
    then show ?thesis
      using "1.IH" digit_char_digit [of "n mod 10"] by (subst (1 2) str_nat.simps) simp
  qed
qed

text \<open>\<^verbatim>\<open>str\<close> of an \<^verbatim>\<open>int\<close> is a non-empty string of decimal digits, after a
  minus sign exactly when the number is negative.\<close>

lemma str_int_decimal:
  "\<exists>ds. ds \<noteq> [] \<and> set ds \<subseteq> set ''0123456789''
        \<and> str_int i = (if i < 0 then CHR ''-'' # ds else ds)"
  using str_nat_digits by (auto simp: str_int_def)

end
